theory Spec2Isabelle
  imports
    Main
    "HOL-Library.Word"
    "HOL-Library.Sublist"
    "HOL-Library.Char_ord"
    "HOL-Library.List_Lexorder"
begin

section \<open>Data model\<close>

text \<open>
  The class \<open>NGSLogPrep\<close> of \<open>NGSLogPrep.py\<close> reads PSO2 log files. The embedding
  keeps its private attributes as the fields of a record; an attribute that the
  constructor has not assigned is \<open>None\<close>, and reading it is the \<open>AttributeError\<close>
  Python raises. Bytes are 8-bit words, a decoded \<open>str\<close> is the list of its code
  points, a path is a \<open>string\<close>.
\<close>

type_synonym byte = "8 word"

type_synonym pystr = "nat list"

datatype error =
    ValueError string
  | FileNotFoundError string
  | AttributeError string

text \<open>The two calls of \<open>logging.error\<close>, with the value each message interpolates.\<close>

datatype event =
    FileNotFoundLogged string
  | DecodeErrorLogged "byte list"

text \<open>
  The file system holds regular files only: a path is present exactly when
  \<open>os.path.exists\<close> holds and \<open>open(path, 'rb')\<close> succeeds. The world gives the
  file system and the UTC date string (\<open>strftime('%Y%m%d')\<close>) at every second; time
  passes in \<open>sleep\<close> and nowhere else.
\<close>

record disk_file =
  content :: "byte list"
  mtime :: int

type_synonym filesystem = "string \<rightharpoonup> disk_file"

record world =
  fs_at :: "nat \<Rightarrow> filesystem"
  date_at :: "nat \<Rightarrow> string"

text \<open>An open binary file object: its \<open>name\<close> and the read cursor.\<close>

record handle =
  name :: string
  pos :: nat

text \<open>
  The object: \<open>priv_x\<close> is the attribute \<open>self.__x\<close>. \<open>priv_is_path\<close> and
  \<open>priv_ba\<close> are assigned by every constructor call, the other four only on some paths.
\<close>

record NGSLogPrep =
  priv_is_path :: bool
  priv_ba :: "byte list"
  priv_log_path :: "string option"
  priv_log_type :: "string option"
  priv_log_date :: "string option"
  priv_f :: "handle option"

type_synonym 'a outcome = "((error + 'a) \<times> event list \<times> nat) option"

section \<open>Windows path functions\<close>

text \<open>
  \<open>os.path.dirname\<close> and \<open>os.path.join\<close> of the Windows path module, for paths whose
  drive, if any, is a drive letter with a colon (UNC prefixes are not modelled) and
  with the ASCII letters lower-cased where drives are compared.
\<close>

definition sep :: char where
  "sep = CHR 0x5C"

definition is_sep :: "char \<Rightarrow> bool" where
  "is_sep c \<longleftrightarrow> c = CHR 0x5C \<or> c = CHR ''/''"

definition splitdrive :: "string \<Rightarrow> string \<times> string" where
  "splitdrive p = (if take 1 (drop 1 p) = '':'' then (take 2 p, drop 2 p) else ([], p))"

definition ascii_lower :: "char \<Rightarrow> char" where
  "ascii_lower c =
     (if CHR ''A'' \<le> c \<and> c \<le> CHR ''Z'' then char_of (of_char c + (32::nat)) else c)"

definition rstrip_seps :: "string \<Rightarrow> string" where
  "rstrip_seps s = rev (dropWhile is_sep (rev s))"

definition dirname :: "string \<Rightarrow> string" where
  "dirname p =
     (let (d, r) = splitdrive p;
          i = length (dropWhile (\<lambda>c. \<not> is_sep c) (rev r));
          head = take i r
      in d @ (if rstrip_seps head = [] then head else rstrip_seps head))"

definition path_join :: "string \<Rightarrow> string \<Rightarrow> string" where
  "path_join a b =
     (let (result_drive, result_path) = splitdrive a;
          (p_drive, p_path) = splitdrive b
      in if p_path \<noteq> [] \<and> is_sep (hd p_path)
         then (if p_drive \<noteq> [] \<or> result_drive = [] then p_drive else result_drive) @ p_path
         else if p_drive \<noteq> [] \<and> p_drive \<noteq> result_drive
                 \<and> map ascii_lower p_drive \<noteq> map ascii_lower result_drive
         then p_drive @ p_path
         else (if p_drive \<noteq> [] \<and> p_drive \<noteq> result_drive then p_drive else result_drive)
              @ (if result_path \<noteq> [] \<and> \<not> is_sep (last result_path)
                 then result_path @ [sep] @ p_path
                 else result_path @ p_path))"

text \<open>The file name \<open>f'{log_type}{log_date}_00.txt'\<close>.\<close>

definition log_file_name :: "string \<Rightarrow> string \<Rightarrow> string" where
  "log_file_name ty d = ty @ d @ ''_00.txt''"

section \<open>Decoding\<close>

text \<open>
  \<open>bytes.decode('UTF-16-BE')\<close> with strict error handling: two bytes per code unit,
  high byte first; a high surrogate must be followed by a low surrogate; a lone low
  surrogate, an unpaired high surrogate and a trailing single byte are each a
  \<open>UnicodeDecodeError\<close>, here \<open>None\<close>.
\<close>

fun utf_16_be_decode :: "byte list \<Rightarrow> pystr option" where
  "utf_16_be_decode [] = Some []"
| "utf_16_be_decode [b] = None"
| "utf_16_be_decode (hi # lo # rest) =
     (let u = 256 * unat hi + unat lo in
      if u < 0xD800 \<or> 0xDFFF < u then map_option ((#) u) (utf_16_be_decode rest)
      else if u \<le> 0xDBFF then
        (case rest of
           hi2 # lo2 # rest2 \<Rightarrow>
             (let v = 256 * unat hi2 + unat lo2 in
              if 0xDC00 \<le> v \<and> v \<le> 0xDFFF
              then map_option ((#) (0x10000 + (u - 0xD800) * 0x400 + (v - 0xDC00)))
                     (utf_16_be_decode rest2)
              else None)
         | _ \<Rightarrow> None)
      else None)"

text \<open>A \<open>str\<close> of ASCII characters as code points.\<close>

definition ascii :: "string \<Rightarrow> pystr" where
  "ascii s = map of_char s"

section \<open>\<open>get_lines\<close>\<close>

definition terminator :: "byte list" where
  "terminator = [0x00, 0x0D, 0x00, 0x0A]"

text \<open>The slices \<open>ba[-4:]\<close> and \<open>ba[:-4]\<close>; both clip on a buffer shorter than four.\<close>

definition last4 :: "byte list \<Rightarrow> byte list" where
  "last4 xs = drop (length xs - 4) xs"

definition drop_last4 :: "byte list \<Rightarrow> byte list" where
  "drop_last4 xs = take (length xs - 4) xs"

text \<open>
  One pass of the body of \<open>while byte := self.__f.read(1)\<close> on the byte just read:
  the state is the buffer \<open>self.__ba\<close>, the list \<open>log_lines\<close> and the errors logged.
\<close>

definition feed :: "byte \<Rightarrow> byte list \<times> pystr list \<times> event list
    \<Rightarrow> byte list \<times> pystr list \<times> event list" where
  "feed b s =
     (case s of (buf, log_lines, evs) \<Rightarrow>
        if last4 (buf @ [b]) = terminator
        then (case utf_16_be_decode (drop_last4 (buf @ [b])) of
                None \<Rightarrow> ([], log_lines, evs @ [DecodeErrorLogged (buf @ [b])])
              | Some log_line \<Rightarrow> ([], log_lines @ [log_line], evs))
        else (buf @ [b], log_lines, evs))"

text \<open>The loop over the bytes between the cursor and the end of the file.\<close>

fun get_lines_loop :: "byte list \<Rightarrow> byte list \<times> pystr list \<times> event list
    \<Rightarrow> byte list \<times> pystr list \<times> event list" where
  "get_lines_loop [] s = s"
| "get_lines_loop (b # bs) s = get_lines_loop bs (feed b s)"

text \<open>The bytes \<open>read\<close> can still deliver from a handle.\<close>

definition unread :: "filesystem \<Rightarrow> handle \<Rightarrow> byte list" where
  "unread fs h = (case fs (name h) of None \<Rightarrow> [] | Some fl \<Rightarrow> drop (pos h) (content fl))"

definition get_lines :: "filesystem \<Rightarrow> NGSLogPrep
    \<Rightarrow> error + (pystr list \<times> event list \<times> NGSLogPrep)" where
  "get_lines fs self =
     (case priv_f self of
        None \<Rightarrow> Inl (AttributeError ''_NGSLogPrep__f'')
      | Some h \<Rightarrow>
          (case get_lines_loop (unread fs h) (priv_ba self, [], []) of
             (buf, log_lines, evs) \<Rightarrow>
               Inr (log_lines, evs,
                    self\<lparr>priv_ba := buf,
                         priv_f := Some (h\<lparr>pos := pos h + length (unread fs h)\<rparr>)\<rparr>)))"

section \<open>\<open>__open_log_file\<close>\<close>

text \<open>
  The cursor after a successful \<open>open\<close>: \<open>seek(0, 2)\<close> in live mode, \<open>read(2)\<close>
  in one-shot mode.
\<close>

definition open_pos :: "bool \<Rightarrow> disk_file \<Rightarrow> nat" where
  "open_pos one_shot fl = (if one_shot then min 2 (length (content fl)) else length (content fl))"

definition opened :: "NGSLogPrep \<Rightarrow> string \<Rightarrow> disk_file \<Rightarrow> NGSLogPrep" where
  "opened self path fl =
     self\<lparr>priv_f := Some \<lparr>name = path, pos = open_pos (priv_is_path self) fl\<rparr>,
          priv_ba := [0x00]\<rparr>"

text \<open>
  The \<open>while True\<close> loop. A failed attempt logs on the first failure only (the message
  interpolates \<open>self.__log_type\<close>), sleeps one second and tries again; the result is
  \<open>None\<close> when the loop never ends.
\<close>

partial_function (option) open_log_file_loop ::
    "world \<Rightarrow> string \<Rightarrow> NGSLogPrep \<Rightarrow> bool \<Rightarrow> event list \<Rightarrow> nat \<Rightarrow> NGSLogPrep outcome" where
  "open_log_file_loop w path self error_fnf evs t =
     (case fs_at w t path of
        None \<Rightarrow>
          (if \<not> error_fnf
           then (case priv_log_type self of
                   None \<Rightarrow> Some (Inl (AttributeError ''_NGSLogPrep__log_type''), evs, t)
                 | Some ty \<Rightarrow>
                     open_log_file_loop w path self True (evs @ [FileNotFoundLogged ty]) (t + 1))
           else open_log_file_loop w path self error_fnf evs (t + 1))
      | Some fl \<Rightarrow> Some (Inr (opened self path fl), evs, t))"

declare open_log_file_loop.simps [code]

definition open_log_file :: "world \<Rightarrow> string \<Rightarrow> NGSLogPrep \<Rightarrow> nat \<Rightarrow> NGSLogPrep outcome" where
  "open_log_file w path self t = open_log_file_loop w path self False [] t"

section \<open>\<open>__init__\<close> and the \<open>log_path\<close> property\<close>

text \<open>\<open>max(xs, key=k)\<close> on a non-empty list: the first element with the largest key.\<close>

fun max_by :: "('a \<Rightarrow> int) \<Rightarrow> 'a \<Rightarrow> 'a list \<Rightarrow> 'a" where
  "max_by k m [] = m"
| "max_by k m (x # xs) = max_by k (if k m < k x then x else m) xs"

text \<open>
  The constructor. The Documents folder \<open>docs\<close> and the entries \<open>hits\<close> that \<open>glob\<close>
  finds under it, each with the time \<open>os.path.getmtime\<close> reports, come from the
  platform. The monitor thread that the live branch starts is \<open>log_monitor\<close> below.
\<close>

definition NGSLogPrep_init ::
    "world \<Rightarrow> string \<Rightarrow> (string \<times> int) list \<Rightarrow> string \<Rightarrow> bool \<Rightarrow> nat \<Rightarrow> NGSLogPrep outcome" where
  "NGSLogPrep_init w docs hits target one_shot t =
     (let self = \<lparr>priv_is_path = one_shot, priv_ba = [], priv_log_path = None,
                  priv_log_type = None, priv_log_date = None, priv_f = None\<rparr>
      in if \<not> one_shot
         then (case hits of
                 [] \<Rightarrow>
                   Some (Inl (ValueError (''Found no suitable logs folder in '' @ [CHR 0x22] @ docs
                                @ [sep] @ ''SEGA'' @ [sep] @ ''PHANTASYSTARONLINE2*'' @ [sep]
                                @ [CHR 0x22] @ ''.'')),
                         [], t)
               | h # hs \<Rightarrow>
                   (let lp = dirname (fst (max_by snd h hs));
                        self1 = self\<lparr>priv_log_path := Some lp, priv_log_type := Some target,
                                     priv_log_date := Some (date_at w t)\<rparr>
                    in case open_log_file w (lp @ [sep] @ log_file_name target (date_at w t)) self1 t of
                         None \<Rightarrow> None
                       | Some (Inl e, evs, t') \<Rightarrow> Some (Inl e, evs, t')
                       | Some (Inr self2, evs, t') \<Rightarrow>
                           Some (Inr (self2\<lparr>priv_log_path := Some (dirname lp)\<rparr>), evs, t')))
         else if fs_at w t target \<noteq> None
         then open_log_file w target self t
         else Some (Inl (FileNotFoundError (''No such log file: '' @ target)), [], t))"

definition log_path :: "NGSLogPrep \<Rightarrow> error + string" where
  "log_path self =
     (case priv_log_path self of
        None \<Rightarrow> Inl (AttributeError ''_NGSLogPrep__log_path'')
      | Some p \<Rightarrow> Inr p)"

section \<open>\<open>__log_monitor\<close>\<close>

text \<open>The candidate paths \<open>base_path\<close> and \<open>ngs_path\<close> for a root, a type and a date.\<close>

definition base_path_of :: "string \<Rightarrow> string \<Rightarrow> string \<Rightarrow> string" where
  "base_path_of lp ty d = path_join lp (''log'' @ [sep] @ log_file_name ty d)"

definition ngs_path_of :: "string \<Rightarrow> string \<Rightarrow> string \<Rightarrow> string" where
  "ngs_path_of lp ty d = path_join lp (''log_ngs'' @ [sep] @ log_file_name ty d)"

text \<open>The two assignments before the loop.\<close>

definition log_monitor_paths :: "NGSLogPrep \<Rightarrow> error + (string \<times> string)" where
  "log_monitor_paths self =
     (case priv_log_path self of
        None \<Rightarrow> Inl (AttributeError ''_NGSLogPrep__log_path'')
      | Some lp \<Rightarrow>
     (case priv_log_type self of
        None \<Rightarrow> Inl (AttributeError ''_NGSLogPrep__log_type'')
      | Some ty \<Rightarrow>
     (case priv_log_date self of
        None \<Rightarrow> Inl (AttributeError ''_NGSLogPrep__log_date'')
      | Some d \<Rightarrow> Inr (base_path_of lp ty d, ngs_path_of lp ty d))))"

text \<open>
  First half of the loop body (``Check if Player moved between Base Game and NGS'').
  \<open>max(base_path, ngs_path, key=os.path.getmtime)\<close> keeps its first argument unless
  the second has a strictly larger key.
\<close>

definition log_monitor_variant ::
    "world \<Rightarrow> string \<Rightarrow> string \<Rightarrow> NGSLogPrep \<Rightarrow> nat \<Rightarrow> NGSLogPrep outcome" where
  "log_monitor_variant w base_path ngs_path self t =
     (case fs_at w t base_path of
        None \<Rightarrow> Some (Inr self, [], t)
      | Some fb \<Rightarrow>
     (case fs_at w t ngs_path of
        None \<Rightarrow> Some (Inr self, [], t)
      | Some fn \<Rightarrow>
          (let last_path = (if mtime fb < mtime fn then ngs_path else base_path)
           in case priv_f self of
                None \<Rightarrow> Some (Inl (AttributeError ''_NGSLogPrep__f''), [], t)
              | Some h \<Rightarrow>
                  if last_path \<noteq> name h then open_log_file w last_path self t
                  else Some (Inr self, [], t))))"

text \<open>
  Second half of the loop body (``Check for UTC Midnight to update Logfile Path''):
  the result carries the object and the two candidate paths.
\<close>

definition log_monitor_midnight ::
    "world \<Rightarrow> string \<Rightarrow> string \<Rightarrow> NGSLogPrep \<Rightarrow> nat \<Rightarrow> (NGSLogPrep \<times> string \<times> string) outcome" where
  "log_monitor_midnight w base_path ngs_path self t =
     (case priv_log_date self of
        None \<Rightarrow> Some (Inl (AttributeError ''_NGSLogPrep__log_date''), [], t)
      | Some d \<Rightarrow>
          if d < date_at w t
          then (case priv_f self of
                  None \<Rightarrow> Some (Inl (AttributeError ''_NGSLogPrep__f''), [], t)
                | Some h \<Rightarrow>
               (case priv_log_type self of
                  None \<Rightarrow> Some (Inl (AttributeError ''_NGSLogPrep__log_type''), [], t)
                | Some ty \<Rightarrow>
               (case open_log_file w
                       (path_join (dirname (name h)) (log_file_name ty (date_at w t)))
                       (self\<lparr>priv_log_date := Some (date_at w t)\<rparr>) t of
                  None \<Rightarrow> None
                | Some (Inl e, evs, t') \<Rightarrow> Some (Inl e, evs, t')
                | Some (Inr self', evs, t') \<Rightarrow>
                    (case priv_log_path self' of
                       None \<Rightarrow> Some (Inl (AttributeError ''_NGSLogPrep__log_path''), evs, t')
                     | Some lp \<Rightarrow>
                         Some (Inr (self', base_path_of lp ty (date_at w t),
                                    ngs_path_of lp ty (date_at w t)), evs, t')))))
          else Some (Inr (self, base_path, ngs_path), [], t))"

text \<open>One pass of the loop body, with its \<open>sleep(15)\<close>.\<close>

definition log_monitor_tick ::
    "world \<Rightarrow> NGSLogPrep \<times> string \<times> string \<Rightarrow> nat \<Rightarrow> (NGSLogPrep \<times> string \<times> string) outcome" where
  "log_monitor_tick w s t =
     (case s of (self, base_path, ngs_path) \<Rightarrow>
        (case log_monitor_variant w base_path ngs_path self t of
           None \<Rightarrow> None
         | Some (Inl e, evs, t1) \<Rightarrow> Some (Inl e, evs, t1)
         | Some (Inr self1, evs, t1) \<Rightarrow>
             (case log_monitor_midnight w base_path ngs_path self1 t1 of
                None \<Rightarrow> None
              | Some (Inl e, evs', t2) \<Rightarrow> Some (Inl e, evs @ evs', t2)
              | Some (Inr s', evs', t2) \<Rightarrow> Some (Inr s', evs @ evs', t2 + 15))))"

section \<open>Concrete inputs\<close>

text \<open>
  A one-shot file in two encodings: the byte order mark \<open>FF FE\<close>, then ``hi'' and
  ``bye'', each followed by a carriage return and a line feed, once with the high byte
  of every code unit first and once with the low byte first.
\<close>

definition be_file :: "byte list" where
  "be_file = [0xFF, 0xFE, 0x00, 0x68, 0x00, 0x69, 0x00, 0x0D, 0x00, 0x0A,
              0x00, 0x62, 0x00, 0x79, 0x00, 0x65, 0x00, 0x0D, 0x00, 0x0A]"

definition le_file :: "byte list" where
  "le_file = [0xFF, 0xFE, 0x68, 0x00, 0x69, 0x00, 0x0D, 0x00, 0x0A, 0x00,
              0x62, 0x00, 0x79, 0x00, 0x65, 0x00, 0x0D, 0x00, 0x0A, 0x00]"

text \<open>A world whose only file is \<open>message.txt\<close>, unchanged over time; a world with no file.\<close>

definition file_world :: "byte list \<Rightarrow> world" where
  "file_world bs =
     \<lparr>fs_at = (\<lambda>t. [''message.txt'' \<mapsto> \<lparr>content = bs, mtime = 0\<rparr>]),
      date_at = (\<lambda>t. ''20240101'')\<rparr>"

definition empty_world :: world where
  "empty_world = \<lparr>fs_at = (\<lambda>t. Map.empty), date_at = (\<lambda>t. ''20240101'')\<rparr>"

text \<open>The object the constructor returns for \<open>message.txt\<close> in one-shot mode.\<close>

definition one_shot_obj :: NGSLogPrep where
  "one_shot_obj =
     \<lparr>priv_is_path = True, priv_ba = [0x00], priv_log_path = None, priv_log_type = None,
      priv_log_date = None, priv_f = Some \<lparr>name = ''message.txt'', pos = 2\<rparr>\<rparr>"

text \<open>A live object before its first \<open>open\<close>, and a world where its file appears at second 3.\<close>

definition live_obj :: NGSLogPrep where
  "live_obj =
     \<lparr>priv_is_path = False, priv_ba = [], priv_log_path = Some ''logs'',
      priv_log_type = Some ''ChatLog'', priv_log_date = Some ''20240101'', priv_f = None\<rparr>"

definition late_world :: world where
  "late_world =
     \<lparr>fs_at = (\<lambda>t. if t < 3 then Map.empty
                    else [''ChatLog20240101_00.txt'' \<mapsto> \<lparr>content = [0xFF, 0xFE], mtime = 7\<rparr>]),
      date_at = (\<lambda>t. ''20240101'')\<rparr>"

text \<open>
  The monitor's inputs: the installation folder \<open>C:\P\<close>, the chat log of two days in
  its two log folders, and a live object reading one of them.
\<close>

definition root :: string where
  "root = ''C:'' @ [sep] @ ''P''"

definition base_old :: string where
  "base_old = base_path_of root ''ChatLog'' ''20240101''"

definition ngs_old :: string where
  "ngs_old = ngs_path_of root ''ChatLog'' ''20240101''"

definition base_new :: string where
  "base_new = base_path_of root ''ChatLog'' ''20240102''"

definition ngs_new :: string where
  "ngs_new = ngs_path_of root ''ChatLog'' ''20240102''"

definition monitored :: "string \<Rightarrow> NGSLogPrep" where
  "monitored path =
     \<lparr>priv_is_path = False, priv_ba = [0x00], priv_log_path = Some root,
      priv_log_type = Some ''ChatLog'', priv_log_date = Some ''20240101'',
      priv_f = Some \<lparr>name = path, pos = 0\<rparr>\<rparr>"

definition log_of :: "int \<Rightarrow> disk_file" where
  "log_of m = \<lparr>content = [0xFF, 0xFE, 0x68, 0x00], mtime = m\<rparr>"

text \<open>
  The player is in NGS over midnight: only the \<open>log_ngs\<close> files exist, and the date
  has changed.
\<close>

definition ngs_midnight_world :: world where
  "ngs_midnight_world =
     \<lparr>fs_at = (\<lambda>t. [ngs_old \<mapsto> log_of 5, ngs_new \<mapsto> log_of 9]),
      date_at = (\<lambda>t. ''20240102'')\<rparr>"

text \<open>Only the \<open>log_ngs\<close> file of the day exists.\<close>

definition ngs_only_world :: world where
  "ngs_only_world =
     \<lparr>fs_at = (\<lambda>t. [ngs_old \<mapsto> log_of 9]), date_at = (\<lambda>t. ''20240101'')\<rparr>"

text \<open>Both files of the day exist, with the given modification times.\<close>

definition both_world :: "int \<Rightarrow> int \<Rightarrow> world" where
  "both_world mb mn =
     \<lparr>fs_at = (\<lambda>t. [base_old \<mapsto> log_of mb, ngs_old \<mapsto> log_of mn]),
      date_at = (\<lambda>t. ''20240101'')\<rparr>"

section \<open>Framing lemmas\<close>

lemma last4_terminator_iff: "last4 xs = terminator \<longleftrightarrow> (\<exists>ys. xs = ys @ terminator)"
proof
  assume h: "last4 xs = terminator"
  have "xs = take (length xs - 4) xs @ last4 xs"
    by (simp add: last4_def)
  with h show "\<exists>ys. xs = ys @ terminator"
    by metis
next
  assume "\<exists>ys. xs = ys @ terminator"
  then show "last4 xs = terminator"
    by (auto simp: last4_def terminator_def)
qed

lemma drop_last4_terminator: "drop_last4 (ys @ terminator) = ys"
  by (simp add: drop_last4_def terminator_def)

lemma get_lines_loop_append:
  "get_lines_loop (xs @ ys) s = get_lines_loop ys (get_lines_loop xs s)"
  by (induction xs arbitrary: s) simp_all

lemma feed_other:
  "\<forall>ys. buf @ [b] \<noteq> ys @ terminator \<Longrightarrow> feed b (buf, ls, es) = (buf @ [b], ls, es)"
  by (simp add: feed_def last4_terminator_iff)

lemma feed_at_terminator:
  assumes "buf @ [b] = ys @ terminator"
  shows "feed b (buf, ls, es) =
           (case utf_16_be_decode ys of
              None \<Rightarrow> ([], ls, es @ [DecodeErrorLogged (buf @ [b])])
            | Some l \<Rightarrow> ([], ls @ [l], es))"
proof -
  have "last4 (buf @ [b]) = terminator"
    using assms last4_terminator_iff by blast
  moreover have "drop_last4 (buf @ [b]) = ys"
    using assms drop_last4_terminator by simp
  ultimately show ?thesis
    by (simp add: feed_def)
qed

lemma get_lines_loop_no_terminator:
  "\<not> sublist terminator (buf @ xs) \<Longrightarrow> get_lines_loop xs (buf, ls, es) = (buf @ xs, ls, es)"
proof (induction xs arbitrary: buf)
  case Nil
  then show ?case by simp
next
  case (Cons b bs)
  have "\<forall>ys. buf @ [b] \<noteq> ys @ terminator"
  proof (intro allI notI)
    fix ys
    assume "buf @ [b] = ys @ terminator"
    then have "buf @ b # bs = ys @ terminator @ bs"
      by (metis append.assoc append_Cons append_Nil)
    then have "sublist terminator (buf @ b # bs)"
      by (simp only: sublist_appendI)
    with Cons.prems show False by simp
  qed
  moreover have "\<not> sublist terminator ((buf @ [b]) @ bs)"
    using Cons.prems by simp
  ultimately show ?case
    using Cons.IH [of "buf @ [b]"] by (simp add: feed_other)
qed

lemma get_lines_loop_record:
  assumes "\<not> sublist terminator (buf @ r @ [0x00, 0x0D, 0x00])"
  shows "get_lines_loop (r @ terminator) (buf, ls, es) =
           (case utf_16_be_decode (buf @ r) of
              None \<Rightarrow> ([], ls, es @ [DecodeErrorLogged (buf @ r @ terminator)])
            | Some l \<Rightarrow> ([], ls @ [l], es))"
proof -
  have split: "r @ terminator = (r @ [0x00, 0x0D, 0x00]) @ [0x0A]"
    by (simp add: terminator_def)
  have pre: "get_lines_loop (r @ [0x00, 0x0D, 0x00]) (buf, ls, es)
               = (buf @ r @ [0x00, 0x0D, 0x00], ls, es)"
    using assms by (rule get_lines_loop_no_terminator)
  have whole: "(buf @ r @ [0x00, 0x0D, 0x00]) @ [0x0A] = (buf @ r) @ terminator"
    by (simp add: terminator_def)
  have "get_lines_loop (r @ terminator) (buf, ls, es)
          = get_lines_loop [0x0A] (get_lines_loop (r @ [0x00, 0x0D, 0x00]) (buf, ls, es))"
    by (simp only: split get_lines_loop_append)
  also have "\<dots> = feed 0x0A (buf @ r @ [0x00, 0x0D, 0x00], ls, es)"
    by (simp only: pre get_lines_loop.simps)
  also have "\<dots> =
       (case utf_16_be_decode (buf @ r) of
          None \<Rightarrow> ([], ls, es @ [DecodeErrorLogged ((buf @ r @ [0x00, 0x0D, 0x00]) @ [0x0A])])
        | Some l \<Rightarrow> ([], ls @ [l], es))"
    using whole by (rule feed_at_terminator)
  also have "(buf @ r @ [0x00, 0x0D, 0x00]) @ [0x0A] = buf @ r @ terminator"
    by (simp add: terminator_def)
  finally show ?thesis .
qed

lemma utf_16_be_decode_append:
  "utf_16_be_decode xs = Some s \<Longrightarrow> utf_16_be_decode ys = Some s' \<Longrightarrow>
     utf_16_be_decode (xs @ ys) = Some (s @ s')"
proof (induction xs arbitrary: s rule: utf_16_be_decode.induct)
  case 1
  then show ?case by simp
next
  case (2 b)
  then show ?case by simp
next
  case (3 hi lo rest)
  show ?case
  proof (cases "256 * unat hi + unat lo < 0xD800 \<or> 0xDFFF < 256 * unat hi + unat lo")
    case True
    with 3 show ?thesis
      by (auto simp: Let_def)
  next
    case False
    note outside = this
    show ?thesis
    proof (cases rest)
      case Nil
      with 3 outside show ?thesis by (simp add: Let_def split: if_splits)
    next
      case (Cons hi2 rest1)
      note c1 = this
      show ?thesis
      proof (cases rest1)
        case Nil
        with 3 outside c1 show ?thesis by (simp add: Let_def split: if_splits)
      next
        case (Cons lo2 rest2)
        with 3 outside c1 show ?thesis
          by (auto simp: Let_def split: if_splits)
      qed
    qed
  qed
qed

section \<open>Lemmas about \<open>__open_log_file\<close>\<close>

lemma open_log_file_loop_present:
  "fs_at w t path = Some fl \<Longrightarrow>
     open_log_file_loop w path self error_fnf evs t = Some (Inr (opened self path fl), evs, t)"
  by (subst open_log_file_loop.simps) simp

lemma open_log_file_loop_absent:
  "fs_at w t path = None \<Longrightarrow> priv_log_type self = Some ty \<Longrightarrow>
     open_log_file_loop w path self error_fnf evs t =
       open_log_file_loop w path self True
         (if error_fnf then evs else evs @ [FileNotFoundLogged ty]) (Suc t)"
  by (subst open_log_file_loop.simps) simp

lemma open_log_file_loop_wait:
  assumes "priv_log_type self = Some ty"
    and "\<forall>i<k. fs_at w (t + i) path = None"
    and "fs_at w (t + k) path = Some fl"
  shows "open_log_file_loop w path self error_fnf evs t =
           Some (Inr (opened self path fl),
                 (if k = 0 \<or> error_fnf then evs else evs @ [FileNotFoundLogged ty]), t + k)"
  using assms(2,3)
proof (induction k arbitrary: t error_fnf evs)
  case 0
  then show ?case by (simp add: open_log_file_loop_present)
next
  case (Suc k)
  have now: "fs_at w t path = None"
    using Suc.prems(1) [rule_format, of 0] by simp
  have later: "\<forall>i<k. fs_at w (Suc t + i) path = None"
    using Suc.prems(1) by (metis Suc_less_eq add_Suc_right add_Suc)
  have appears: "fs_at w (Suc t + k) path = Some fl"
    using Suc.prems(2) by simp
  show ?case
    unfolding open_log_file_loop_absent [OF now assms(1)]
    using Suc.IH [OF later appears, of True] by simp
qed

lemma open_log_file_loop_result:
  assumes "open_log_file_loop w path self error_fnf evs t = Some r"
  shows "(\<exists>fl evs' k. r = (Inr (opened self path fl), evs', t + k)
            \<and> fs_at w (t + k) path = Some fl)
         \<or> (r = (Inl (AttributeError ''_NGSLogPrep__log_type''), evs, t)
            \<and> priv_log_type self = None \<and> fs_at w t path = None \<and> \<not> error_fnf)"
  using assms
proof (induction rule: open_log_file_loop.raw_induct [rotated 1, consumes 1])
  case (1 open_loop w path self error_fnf evs t r)
  have step: "\<exists>fl evs' k. r = (Inr (opened self path fl), evs', t + k)
                \<and> fs_at w (t + k) path = Some fl"
    if "open_loop w path self True evs1 (t + 1) = Some r" for evs1
  proof -
    from 1(1) [OF that] obtain fl evs' k
      where "r = (Inr (opened self path fl), evs', t + 1 + k)"
        and "fs_at w (t + 1 + k) path = Some fl"
      by auto
    then have "r = (Inr (opened self path fl), evs', t + Suc k)
                 \<and> fs_at w (t + Suc k) path = Some fl"
      by simp
    then show ?thesis by blast
  qed
  show ?case
  proof (cases "fs_at w t path")
    case (Some fl)
    with 1(2) have "r = (Inr (opened self path fl), evs, t + 0)" by auto
    with Some show ?thesis by fastforce
  next
    case None
    note absent = this
    show ?thesis
    proof (cases error_fnf)
      case True
      with absent 1(2) have "open_loop w path self True evs (t + 1) = Some r"
        by simp
      then show ?thesis using step by blast
    next
      case False
      note first = this
      show ?thesis
      proof (cases "priv_log_type self")
        case None
        with absent first 1(2) show ?thesis by auto
      next
        case (Some ty)
        with absent first 1(2)
        have "open_loop w path self True (evs @ [FileNotFoundLogged ty]) (t + 1) = Some r"
          by simp
        then show ?thesis using step by blast
      qed
    qed
  qed
qed

lemma open_log_file_loop_never:
  assumes "priv_log_type self = Some ty"
    and "\<forall>i. fs_at w (t + i) path = None"
  shows "open_log_file_loop w path self error_fnf evs t = None"
proof (cases "open_log_file_loop w path self error_fnf evs t")
  case None
  then show ?thesis .
next
  case (Some r)
  from open_log_file_loop_result [OF Some] assms show ?thesis
    by auto
qed

lemma open_log_file_success:
  assumes "open_log_file w path self t = Some (Inr self', evs, t')"
  shows "\<exists>fl. self' = opened self path fl \<and> fs_at w t' path = Some fl"
  using open_log_file_loop_result [OF assms [unfolded open_log_file_def]] by auto

lemma open_log_file_wait:
  assumes "priv_log_type self = Some ty"
    and "\<forall>i<k. fs_at w (t + i) path = None"
    and "fs_at w (t + k) path = Some fl"
  shows "open_log_file w path self t =
           Some (Inr (opened self path fl), (if k = 0 then [] else [FileNotFoundLogged ty]), t + k)"
  using open_log_file_loop_wait [OF assms, of False "[]"]
  by (simp add: open_log_file_def)

lemma open_log_file_present:
  "fs_at w t path = Some fl \<Longrightarrow>
     open_log_file w path self t = Some (Inr (opened self path fl), [], t)"
  by (simp add: open_log_file_def open_log_file_loop_present)

lemma open_log_file_never:
  assumes "priv_log_type self = Some ty"
    and "\<forall>i. fs_at w (t + i) path = None"
  shows "open_log_file w path self t = None"
  using open_log_file_loop_never [OF assms] by (simp add: open_log_file_def)

section \<open>Evaluation lemmas\<close>

lemma open_log_file_one_shot_absent:
  "priv_log_type self = None \<Longrightarrow> fs_at w t path = None \<Longrightarrow>
     open_log_file w path self t = Some (Inl (AttributeError ''_NGSLogPrep__log_type''), [], t)"
  unfolding open_log_file_def by (subst open_log_file_loop.simps) simp

lemma file_world_present:
  "fs_at (file_world bs) t ''message.txt'' = Some \<lparr>content = bs, mtime = 0\<rparr>"
  by (simp add: file_world_def)

lemma init_one_shot_file_world:
  "2 \<le> length bs \<Longrightarrow>
     NGSLogPrep_init (file_world bs) docs hits ''message.txt'' True t = Some (Inr one_shot_obj, [], t)"
  by (simp add: NGSLogPrep_init_def file_world_present open_log_file_present
      opened_def open_pos_def one_shot_obj_def)

lemma unread_one_shot:
  "unread (fs_at (file_world bs) t) \<lparr>name = ''message.txt'', pos = 2\<rparr> = drop 2 bs"
  by (simp add: unread_def file_world_present)

lemma be_lines:
  "get_lines_loop (drop 2 be_file) ([0x00], [], []) =
     ([], [ascii ''bye''], [DecodeErrorLogged [0x00, 0x00, 0x68, 0x00, 0x69, 0x00, 0x0D, 0x00, 0x0A]])"
  by (simp add: be_file_def feed_def last4_def drop_last4_def terminator_def ascii_def)

lemma le_lines:
  "get_lines_loop (drop 2 le_file) ([0x00], [], []) = ([0x00], [ascii ''hi'', ascii ''bye''], [])"
  by (simp add: le_file_def feed_def last4_def drop_last4_def terminator_def ascii_def)

lemma log_path_live:
  assumes "NGSLogPrep_init w docs (h # hs) target False t = Some (Inr self, evs, t')"
  shows "log_path self = Inr (dirname (dirname (fst (max_by snd h hs))))"
  using assms
  by (auto simp: NGSLogPrep_init_def Let_def log_path_def split: option.splits sum.splits)

section \<open>Opening a file\<close>

text \<open>
  C9. \<open>__open_log_file\<close>, called on an object whose log type is set (as it is at
  every call made in live mode), retries once per second while the file does not
  exist: when the file is absent at the first \<open>k\<close> attempts and present at the next,
  the call returns after exactly \<open>k\<close> seconds with the file opened, having logged the
  file-not-found message once if \<open>k > 0\<close> and not at all if \<open>k = 0\<close>; when the file
  never appears the call never returns, and in neither case is an exception raised.
\<close>

theorem open_log_file_retries:
  assumes "priv_log_type self = Some ty"
  shows "((\<forall>i<k. fs_at w (t + i) path = None) \<and> fs_at w (t + k) path = Some fl \<longrightarrow>
            open_log_file w path self t =
              Some (Inr (opened self path fl), (if k = 0 then [] else [FileNotFoundLogged ty]), t + k))
         \<and> ((\<forall>i. fs_at w (t + i) path = None) \<longrightarrow> open_log_file w path self t = None)"
proof (intro conjI impI)
  assume "(\<forall>i<k. fs_at w (t + i) path = None) \<and> fs_at w (t + k) path = Some fl"
  then show "open_log_file w path self t =
      Some (Inr (opened self path fl), (if k = 0 then [] else [FileNotFoundLogged ty]), t + k)"
    using open_log_file_wait [OF assms] by blast
next
  assume "\<forall>i. fs_at w (t + i) path = None"
  then show "open_log_file w path self t = None"
    using open_log_file_never [OF assms] by blast
qed

theorem open_log_file_retries_witness:
  "open_log_file late_world ''ChatLog20240101_00.txt'' live_obj 0 =
     Some (Inr (live_obj\<lparr>priv_f := Some \<lparr>name = ''ChatLog20240101_00.txt'', pos = 2\<rparr>,
                          priv_ba := [0x00]\<rparr>),
           [FileNotFoundLogged ''ChatLog''], 3)
   \<and> open_log_file empty_world ''ChatLog20240101_00.txt'' live_obj 0 = None"
proof -
  have ty: "priv_log_type live_obj = Some ''ChatLog''"
    by (simp add: live_obj_def)
  have absent: "\<forall>i<3. fs_at late_world (0 + i) ''ChatLog20240101_00.txt'' = None"
    by (simp add: late_world_def)
  have present: "fs_at late_world (0 + 3) ''ChatLog20240101_00.txt''
                   = Some \<lparr>content = [0xFF, 0xFE], mtime = 7\<rparr>"
    by (simp add: late_world_def)
  have never: "\<forall>i. fs_at empty_world (0 + i) ''ChatLog20240101_00.txt'' = None"
    by (simp add: empty_world_def)
  from open_log_file_retries [OF ty, of 3 late_world 0 "''ChatLog20240101_00.txt''"
      "\<lparr>content = [0xFF, 0xFE], mtime = 7\<rparr>"] absent present
  have one: "open_log_file late_world ''ChatLog20240101_00.txt'' live_obj 0 =
     Some (Inr (live_obj\<lparr>priv_f := Some \<lparr>name = ''ChatLog20240101_00.txt'', pos = 2\<rparr>,
                          priv_ba := [0x00]\<rparr>),
           [FileNotFoundLogged ''ChatLog''], 3)"
    by (simp add: opened_def open_pos_def live_obj_def)
  from open_log_file_retries [OF ty, of 0 empty_world 0 "''ChatLog20240101_00.txt''"] never
  have two: "open_log_file empty_world ''ChatLog20240101_00.txt'' live_obj 0 = None"
    by blast
  from one two show ?thesis by blast
qed

text \<open>
  C6. In one-shot mode the constructor returns at once, without a sleep and without a
  logged retry, whatever the file system holds; on a path that does not exist it raises
  \<open>FileNotFoundError\<close>.
\<close>

theorem init_one_shot_no_retry:
  "(\<exists>r. NGSLogPrep_init w docs hits target True t = Some (r, [], t))
   \<and> (fs_at w t target = None \<longrightarrow>
        NGSLogPrep_init w docs hits target True t =
          Some (Inl (FileNotFoundError (''No such log file: '' @ target)), [], t))"
proof (cases "fs_at w t target")
  case None
  then show ?thesis
    by (simp add: NGSLogPrep_init_def)
next
  case (Some fl)
  then show ?thesis
    by (simp add: NGSLogPrep_init_def open_log_file_present)
qed

theorem init_one_shot_no_retry_witness:
  "NGSLogPrep_init empty_world [] [] ''message.txt'' True 0 =
     Some (Inl (FileNotFoundError ''No such log file: message.txt''), [], 0)"
proof -
  have "fs_at empty_world 0 ''message.txt'' = None"
    by (simp add: empty_world_def)
  with init_one_shot_no_retry [of empty_world "[]" "[]" "''message.txt''" 0]
  show ?thesis by simp
qed

text \<open>
  C7. The \<open>log_path\<close> property on the object constructed in one-shot mode for an
  existing file: \<open>self.__log_path\<close> was never assigned, and the read raises
  \<open>AttributeError\<close> instead of returning a path.
\<close>

theorem log_path_one_shot_raises:
  "NGSLogPrep_init (file_world le_file) [] [] ''message.txt'' True 0 = Some (Inr one_shot_obj, [], 0)
   \<and> log_path one_shot_obj = Inl (AttributeError ''_NGSLogPrep__log_path'')"
  by (simp add: init_one_shot_file_world le_file_def) (simp add: log_path_def one_shot_obj_def)

section \<open>Lemmas about \<open>get_lines\<close>\<close>

lemma get_lines_one_shot:
  "get_lines (fs_at (file_world bs) t) one_shot_obj =
     (case get_lines_loop (drop 2 bs) ([0x00], [], []) of
        (buf, log_lines, evs) \<Rightarrow>
          Inr (log_lines, evs,
               one_shot_obj\<lparr>priv_ba := buf,
                            priv_f := Some \<lparr>name = ''message.txt'', pos = 2 + length (drop 2 bs)\<rparr>\<rparr>))"
  by (simp add: get_lines_def one_shot_obj_def unread_one_shot)

lemma no_terminator_h: "\<not> sublist terminator ([0x00] @ [0x68] @ [0x00, 0x0D, 0x00])"
  by code_simp

lemma get_lines_returns:
  "priv_f self = Some h \<Longrightarrow> \<exists>res. get_lines fs self = Inr res"
  by (simp add: get_lines_def split: prod.splits)

lemma get_lines_loop_two_records:
  assumes "\<not> sublist terminator (buf @ m @ [0x00, 0x0D, 0x00])"
    and "utf_16_be_decode (buf @ m) = None"
    and "\<not> sublist terminator (r @ [0x00, 0x0D, 0x00])"
    and "utf_16_be_decode r = Some l"
  shows "get_lines_loop (m @ terminator @ r @ terminator) (buf, ls, es) =
           ([], ls @ [l], es @ [DecodeErrorLogged (buf @ m @ terminator)])"
proof -
  have "get_lines_loop (m @ terminator @ r @ terminator) (buf, ls, es)
          = get_lines_loop (r @ terminator) (get_lines_loop (m @ terminator) (buf, ls, es))"
    using get_lines_loop_append [of "m @ terminator" "r @ terminator"] by simp
  also have "get_lines_loop (m @ terminator) (buf, ls, es)
          = ([], ls, es @ [DecodeErrorLogged (buf @ m @ terminator)])"
    using get_lines_loop_record [OF assms(1)] assms(2) by simp
  also have "get_lines_loop (r @ terminator) ([], ls, es @ [DecodeErrorLogged (buf @ m @ terminator)])
          = ([], ls @ [l], es @ [DecodeErrorLogged (buf @ m @ terminator)])"
    using get_lines_loop_record [of "[]" r] assms(3,4) by simp
  finally show ?thesis .
qed

section \<open>Reading lines\<close>

text \<open>
  C1, as the claim states it, fails: on the file \<open>FF FE\<close>, ``hi'' with the high
  bytes first, \<open>00 0D 00 0A\<close>, ``bye'', \<open>00 0D 00 0A\<close>, the one-shot constructor
  followed by one \<open>get_lines\<close> does not return \<open>["hi", "bye"]\<close>.
\<close>

theorem one_shot_read_counterexample:
  "NGSLogPrep_init (file_world be_file) [] [] ''message.txt'' True 0 = Some (Inr one_shot_obj, [], 0)
   \<and> map_sum id fst (get_lines (fs_at (file_world be_file) 0) one_shot_obj)
       \<noteq> Inr [ascii ''hi'', ascii ''bye'']"
proof -
  have "NGSLogPrep_init (file_world be_file) [] [] ''message.txt'' True 0
          = Some (Inr one_shot_obj, [], 0)"
    by (rule init_one_shot_file_world) (simp add: be_file_def)
  moreover have "map_sum id fst (get_lines (fs_at (file_world be_file) 0) one_shot_obj)
                   = Inr [ascii ''bye'']"
    by (simp add: get_lines_one_shot be_lines)
  ultimately show ?thesis by (simp add: ascii_def)
qed

text \<open>
  C1, amended. On that file \<open>get_lines\<close> returns \<open>["bye"]\<close>: the zero byte placed in
  the buffer at \<open>open\<close> shifts the first record by one byte, its five bytes are
  reported as a decode error, and the second record is read from an empty buffer. The
  list \<open>["hi", "bye"]\<close> is what \<open>get_lines\<close> returns for the same text with the low
  byte of every code unit first (\<open>FF FE 68 00 69 00 0D 00 0A 00 ...\<close>), where the
  zero byte in the buffer stands for the high byte that each record's first character
  lacks.
\<close>

theorem one_shot_read:
  "NGSLogPrep_init (file_world be_file) [] [] ''message.txt'' True 0 = Some (Inr one_shot_obj, [], 0)
   \<and> get_lines (fs_at (file_world be_file) 0) one_shot_obj =
       Inr ([ascii ''bye''],
            [DecodeErrorLogged [0x00, 0x00, 0x68, 0x00, 0x69, 0x00, 0x0D, 0x00, 0x0A]],
            one_shot_obj\<lparr>priv_ba := [], priv_f := Some \<lparr>name = ''message.txt'', pos = 20\<rparr>\<rparr>)
   \<and> NGSLogPrep_init (file_world le_file) [] [] ''message.txt'' True 0 = Some (Inr one_shot_obj, [], 0)
   \<and> get_lines (fs_at (file_world le_file) 0) one_shot_obj =
       Inr ([ascii ''hi'', ascii ''bye''], [],
            one_shot_obj\<lparr>priv_ba := [0x00], priv_f := Some \<lparr>name = ''message.txt'', pos = 20\<rparr>\<rparr>)"
proof (intro conjI)
  show "NGSLogPrep_init (file_world be_file) [] [] ''message.txt'' True 0
          = Some (Inr one_shot_obj, [], 0)"
    by (rule init_one_shot_file_world) (simp add: be_file_def)
  show "NGSLogPrep_init (file_world le_file) [] [] ''message.txt'' True 0
          = Some (Inr one_shot_obj, [], 0)"
    by (rule init_one_shot_file_world) (simp add: le_file_def)
  show "get_lines (fs_at (file_world be_file) 0) one_shot_obj =
       Inr ([ascii ''bye''],
            [DecodeErrorLogged [0x00, 0x00, 0x68, 0x00, 0x69, 0x00, 0x0D, 0x00, 0x0A]],
            one_shot_obj\<lparr>priv_ba := [], priv_f := Some \<lparr>name = ''message.txt'', pos = 20\<rparr>\<rparr>)"
    by (simp add: get_lines_one_shot be_lines) (simp add: be_file_def)
  show "get_lines (fs_at (file_world le_file) 0) one_shot_obj =
       Inr ([ascii ''hi'', ascii ''bye''], [],
            one_shot_obj\<lparr>priv_ba := [0x00], priv_f := Some \<lparr>name = ''message.txt'', pos = 20\<rparr>\<rparr>)"
    by (simp add: get_lines_one_shot le_lines) (simp add: le_file_def one_shot_obj_def)
qed

text \<open>
  C2, as the claim states it, fails: after a line is emitted the buffer is empty, not
  the single zero byte; and a record with the high bytes first (\<open>00 68\<close>, ``h''), fed
  after an \<open>open\<close>, emits no line at all.
\<close>

theorem buffer_after_line_counterexample:
  "get_lines_loop [0x68, 0x00, 0x0D, 0x00, 0x0A] ([0x00], [], []) = ([], [ascii ''h''], [])
   \<and> fst (get_lines_loop [0x68, 0x00, 0x0D, 0x00, 0x0A] ([0x00], [], [])) \<noteq> [0x00]
   \<and> utf_16_be_decode [0x00, 0x68] = Some (ascii ''h'')
   \<and> get_lines_loop ([0x00, 0x68] @ terminator) ([0x00], [], []) =
       ([], [], [DecodeErrorLogged [0x00, 0x00, 0x68, 0x00, 0x0D, 0x00, 0x0A]])"
  by (simp add: feed_def last4_def drop_last4_def terminator_def ascii_def)

text \<open>
  C2, amended. After every successful \<open>__open_log_file\<close>, in either mode, the buffer
  is exactly the single zero byte. After every byte that completes the terminator the
  buffer is empty. For every buffer content and every byte sequence \<open>r\<close> such that the
  buffer followed by \<open>r\<close> decodes to a text and no terminator occurs before the one
  that follows \<open>r\<close>, feeding \<open>r\<close> and the terminator emits exactly that text as one
  line and leaves the buffer empty.
\<close>

theorem buffer_after_open_and_line:
  "(open_log_file w path self t = Some (Inr self', evs, t') \<longrightarrow> priv_ba self' = [0x00])
   \<and> (last4 (buf @ [b]) = terminator \<longrightarrow> fst (feed b (buf, ls, es)) = [])
   \<and> (\<not> sublist terminator (buf0 @ r @ [0x00, 0x0D, 0x00]) \<and> utf_16_be_decode (buf0 @ r) = Some l
        \<longrightarrow> get_lines_loop (r @ terminator) (buf0, ls, es) = ([], ls @ [l], es))"
proof (intro conjI impI)
  assume "open_log_file w path self t = Some (Inr self', evs, t')"
  from open_log_file_success [OF this] show "priv_ba self' = [0x00]"
    by (auto simp: opened_def)
next
  assume "last4 (buf @ [b]) = terminator"
  then show "fst (feed b (buf, ls, es)) = []"
    by (simp add: feed_def split: option.splits)
next
  assume "\<not> sublist terminator (buf0 @ r @ [0x00, 0x0D, 0x00]) \<and> utf_16_be_decode (buf0 @ r) = Some l"
  then show "get_lines_loop (r @ terminator) (buf0, ls, es) = ([], ls @ [l], es)"
    by (simp add: get_lines_loop_record)
qed

theorem buffer_after_open_and_line_witness:
  "priv_ba (opened live_obj ''ChatLog20240101_00.txt'' \<lparr>content = [0xFF, 0xFE], mtime = 7\<rparr>) = [0x00]
   \<and> fst (feed 0x0A ([0x00, 0x68, 0x00, 0x0D, 0x00], [], [])) = []
   \<and> get_lines_loop ([0x68] @ terminator) ([0x00], [], []) = ([], [] @ [ascii ''h''], [])"
proof -
  have opens: "open_log_file late_world ''ChatLog20240101_00.txt'' live_obj 3 =
      Some (Inr (opened live_obj ''ChatLog20240101_00.txt'' \<lparr>content = [0xFF, 0xFE], mtime = 7\<rparr>),
            [], 3)"
    by (rule open_log_file_present) (simp add: late_world_def)
  have ends: "last4 ([0x00, 0x68, 0x00, 0x0D, 0x00] @ [0x0A]) = terminator"
    by (simp add: last4_def terminator_def)
  have valid: "utf_16_be_decode ([0x00] @ [0x68]) = Some (ascii ''h'')"
    by (simp add: ascii_def)
  from buffer_after_open_and_line [of late_world "''ChatLog20240101_00.txt''" live_obj 3
      "opened live_obj ''ChatLog20240101_00.txt'' \<lparr>content = [0xFF, 0xFE], mtime = 7\<rparr>" "[]" 3
      "[0x00, 0x68, 0x00, 0x0D, 0x00]" "0x0A" "[]" "[]" "[0x00]" "[0x68]" "ascii ''h''"]
    opens ends valid no_terminator_h
  show ?thesis by blast
qed

text \<open>
  C5. When the bytes in front of a terminator (the buffer and the record \<open>m\<close>) do not
  decode, \<open>get_lines\<close> logs the decode error with the bytes in question, appends no
  line for them, empties the buffer, and emits the next valid record \<open>r\<close> as a line.
  \<open>get_lines\<close> returns normally on every input.
\<close>

theorem get_lines_malformed_record:
  assumes "priv_f self = Some h"
    and "unread fs h = m @ terminator @ r @ terminator"
    and "\<not> sublist terminator (priv_ba self @ m @ [0x00, 0x0D, 0x00])"
    and "utf_16_be_decode (priv_ba self @ m) = None"
    and "\<not> sublist terminator (r @ [0x00, 0x0D, 0x00])"
    and "utf_16_be_decode r = Some l"
  shows "get_lines fs self =
           Inr ([l], [DecodeErrorLogged (priv_ba self @ m @ terminator)],
                self\<lparr>priv_ba := [], priv_f := Some (h\<lparr>pos := pos h + length (unread fs h)\<rparr>)\<rparr>)
         \<and> (\<forall>fs'. \<exists>res. get_lines fs' self = Inr res)"
proof
  have "get_lines_loop (unread fs h) (priv_ba self, [], []) =
          ([], [l], [DecodeErrorLogged (priv_ba self @ m @ terminator)])"
    unfolding assms(2)
    using get_lines_loop_two_records [OF assms(3-6), of "[]" "[]"] by simp
  with assms(1) show "get_lines fs self =
           Inr ([l], [DecodeErrorLogged (priv_ba self @ m @ terminator)],
                self\<lparr>priv_ba := [], priv_f := Some (h\<lparr>pos := pos h + length (unread fs h)\<rparr>)\<rparr>)"
    by (simp add: get_lines_def)
  show "\<forall>fs'. \<exists>res. get_lines fs' self = Inr res"
    using get_lines_returns [OF assms(1)] by blast
qed

theorem get_lines_malformed_record_witness:
  "get_lines (fs_at (file_world be_file) 0) one_shot_obj =
     Inr ([ascii ''bye''],
          [DecodeErrorLogged ([0x00] @ [0x00, 0x68, 0x00, 0x69] @ terminator)],
          one_shot_obj\<lparr>priv_ba := [], priv_f := Some \<lparr>name = ''message.txt'', pos = 20\<rparr>\<rparr>)"
proof -
  have handle: "priv_f one_shot_obj = Some \<lparr>name = ''message.txt'', pos = 2\<rparr>"
    by (simp add: one_shot_obj_def)
  have bytes: "unread (fs_at (file_world be_file) 0) \<lparr>name = ''message.txt'', pos = 2\<rparr>
      = [0x00, 0x68, 0x00, 0x69] @ terminator @ [0x00, 0x62, 0x00, 0x79, 0x00, 0x65] @ terminator"
    by (simp add: unread_one_shot be_file_def terminator_def)
  have first: "\<not> sublist terminator (priv_ba one_shot_obj @ [0x00, 0x68, 0x00, 0x69] @ [0x00, 0x0D, 0x00])"
    by code_simp
  have bad: "utf_16_be_decode (priv_ba one_shot_obj @ [0x00, 0x68, 0x00, 0x69]) = None"
    by (simp add: one_shot_obj_def)
  have second: "\<not> sublist terminator ([0x00, 0x62, 0x00, 0x79, 0x00, 0x65] @ [0x00, 0x0D, 0x00])"
    by code_simp
  have good: "utf_16_be_decode [0x00, 0x62, 0x00, 0x79, 0x00, 0x65] = Some (ascii ''bye'')"
    by (simp add: ascii_def)
  have len: "length (unread (fs_at (file_world be_file) 0) \<lparr>name = ''message.txt'', pos = 2\<rparr>) = 18"
    by (simp add: unread_one_shot be_file_def)
  from get_lines_malformed_record [OF handle bytes first bad second good] len
  show ?thesis
    by (simp add: one_shot_obj_def)
qed

text \<open>
  C8. A byte that completes the line-feed code unit \<open>00 0A\<close> without the code unit
  \<open>00 0D\<close> just before it emits nothing and stays in the buffer with all bytes before
  it; when the terminator \<open>00 0D 00 0A\<close> arrives, the emitted line holds the line
  feed between the text before it and the text after it.
\<close>

theorem bare_line_feed_kept:
  "(buf @ [b] = ys @ [0x00, 0x0A] \<and> \<not> suffix [0x00, 0x0D] ys \<longrightarrow>
      feed b (buf, ls, es) = (buf @ [b], ls, es))
   \<and> (utf_16_be_decode (buf0 @ pre) = Some s1 \<and> utf_16_be_decode post = Some s2
        \<and> \<not> sublist terminator (buf0 @ pre @ [0x00, 0x0A] @ post @ [0x00, 0x0D, 0x00]) \<longrightarrow>
      get_lines_loop (pre @ [0x00, 0x0A] @ post @ terminator) (buf0, ls, es) =
        ([], ls @ [s1 @ [0x0A] @ s2], es))"
proof (intro conjI impI)
  assume bare: "buf @ [b] = ys @ [0x00, 0x0A] \<and> \<not> suffix [0x00, 0x0D] ys"
  have "\<forall>zs. buf @ [b] \<noteq> zs @ terminator"
  proof (intro allI notI)
    fix zs
    assume "buf @ [b] = zs @ terminator"
    with bare have "ys @ [0x00, 0x0A] = (zs @ [0x00, 0x0D]) @ [0x00, 0x0A]"
      by (simp add: terminator_def)
    then have "ys = zs @ [0x00, 0x0D]"
      by (simp only: append_same_eq)
    then have "suffix [0x00, 0x0D] ys"
      by (simp only: suffixI)
    with bare show False by blast
  qed
  then show "feed b (buf, ls, es) = (buf @ [b], ls, es)"
    by (rule feed_other)
next
  assume h: "utf_16_be_decode (buf0 @ pre) = Some s1 \<and> utf_16_be_decode post = Some s2
        \<and> \<not> sublist terminator (buf0 @ pre @ [0x00, 0x0A] @ post @ [0x00, 0x0D, 0x00])"
  have lf: "utf_16_be_decode ([0x00, 0x0A] @ post) = Some ([0x0A] @ s2)"
    using h by (intro utf_16_be_decode_append) simp_all
  have "utf_16_be_decode ((buf0 @ pre) @ [0x00, 0x0A] @ post) = Some (s1 @ [0x0A] @ s2)"
    using h lf by (intro utf_16_be_decode_append) simp_all
  moreover have "\<not> sublist terminator (buf0 @ (pre @ [0x00, 0x0A] @ post) @ [0x00, 0x0D, 0x00])"
    using h by simp
  ultimately show "get_lines_loop (pre @ [0x00, 0x0A] @ post @ terminator) (buf0, ls, es) =
        ([], ls @ [s1 @ [0x0A] @ s2], es)"
    using get_lines_loop_record [of buf0 "pre @ [0x00, 0x0A] @ post" ls es] by simp
qed

theorem bare_line_feed_kept_witness:
  "feed 0x0A ([0x00, 0x61, 0x00], [], []) = ([0x00, 0x61, 0x00] @ [0x0A], [], [])
   \<and> get_lines_loop ([0x00, 0x61] @ [0x00, 0x0A] @ [0x00, 0x62] @ terminator) ([], [], []) =
       ([], [] @ [ascii ''a'' @ [0x0A] @ ascii ''b''], [])"
proof -
  have bare: "[0x00, 0x61, 0x00] @ [0x0A] = [0x00, 0x61] @ [0x00, 0x0A :: byte]"
    by simp
  have nocr: "\<not> suffix [0x00, 0x0D] [0x00, 0x61 :: byte]"
    by code_simp
  have pre: "utf_16_be_decode ([] @ [0x00, 0x61]) = Some (ascii ''a'')"
    by (simp add: ascii_def)
  have post: "utf_16_be_decode [0x00, 0x62] = Some (ascii ''b'')"
    by (simp add: ascii_def)
  have clean: "\<not> sublist terminator ([] @ [0x00, 0x61] @ [0x00, 0x0A] @ [0x00, 0x62] @ [0x00, 0x0D, 0x00])"
    by code_simp
  from bare_line_feed_kept [of "[0x00, 0x61, 0x00]" "0x0A" "[0x00, 0x61]" "[]" "[]"
      "[]" "[0x00, 0x61]" "ascii ''a''" "[0x00, 0x62]" "ascii ''b''"]
    bare nocr pre post clean
  show ?thesis by blast
qed

section \<open>Lemmas about \<open>__log_monitor\<close>\<close>

lemma paths_eval:
  "base_old = ''C:'' @ [sep] @ ''P'' @ [sep] @ ''log'' @ [sep] @ ''ChatLog20240101_00.txt''"
  "ngs_old = ''C:'' @ [sep] @ ''P'' @ [sep] @ ''log_ngs'' @ [sep] @ ''ChatLog20240101_00.txt''"
  "base_new = ''C:'' @ [sep] @ ''P'' @ [sep] @ ''log'' @ [sep] @ ''ChatLog20240102_00.txt''"
  "ngs_new = ''C:'' @ [sep] @ ''P'' @ [sep] @ ''log_ngs'' @ [sep] @ ''ChatLog20240102_00.txt''"
  by (simp_all add: base_old_def ngs_old_def base_new_def ngs_new_def base_path_of_def
      ngs_path_of_def root_def path_join_def splitdrive_def sep_def is_sep_def log_file_name_def)

lemma paths_distinct:
  "base_old \<noteq> ngs_old" "base_old \<noteq> ngs_new" "ngs_old \<noteq> ngs_new" "base_new \<noteq> ngs_new"
  "base_new \<noteq> ngs_old"
  by (simp_all add: paths_eval)

lemma dirname_ngs_old:
  "path_join (dirname ngs_old) (log_file_name ''ChatLog'' ''20240102'') = ngs_new"
  by (simp add: paths_eval dirname_def path_join_def splitdrive_def sep_def is_sep_def
      log_file_name_def rstrip_seps_def)

lemma ngs_midnight_world_files:
  "fs_at ngs_midnight_world t base_old = None"
  "fs_at ngs_midnight_world t ngs_old = Some (log_of 5)"
  "fs_at ngs_midnight_world t ngs_new = Some (log_of 9)"
  "date_at ngs_midnight_world t = ''20240102''"
  using paths_distinct by (simp_all add: ngs_midnight_world_def)

lemma ngs_only_world_files:
  "fs_at ngs_only_world t base_old = None"
  "fs_at ngs_only_world t ngs_old = Some (log_of 9)"
  "date_at ngs_only_world t = ''20240101''"
  using paths_distinct by (simp_all add: ngs_only_world_def)

lemma both_world_files:
  "fs_at (both_world mb mn) t base_old = Some (log_of mb)"
  "fs_at (both_world mb mn) t ngs_old = Some (log_of mn)"
  "date_at (both_world mb mn) t = ''20240101''"
  using paths_distinct by (simp_all add: both_world_def)

lemma monitored_fields:
  "priv_f (monitored p) = Some \<lparr>name = p, pos = 0\<rparr>"
  "priv_log_type (monitored p) = Some ''ChatLog''"
  "priv_log_date (monitored p) = Some ''20240101''"
  "priv_log_path (monitored p) = Some root"
  "priv_is_path (monitored p) = False"
  by (simp_all add: monitored_def)

lemma log_monitor_variant_skip:
  "fs_at w t base_path = None \<or> fs_at w t ngs_path = None \<Longrightarrow>
     log_monitor_variant w base_path ngs_path self t = Some (Inr self, [], t)"
  by (auto simp: log_monitor_variant_def split: option.splits)

lemma log_monitor_variant_both:
  assumes "fs_at w t base_path = Some fb" and "fs_at w t ngs_path = Some fn"
    and "priv_f self = Some h"
  shows "log_monitor_variant w base_path ngs_path self t =
           Some (Inr (if mtime fb < mtime fn
                      then (if ngs_path \<noteq> name h then opened self ngs_path fn else self)
                      else (if base_path \<noteq> name h then opened self base_path fb else self)),
                 [], t)"
  using assms by (simp add: log_monitor_variant_def open_log_file_present)

lemma log_monitor_midnight_same_day:
  "priv_log_date self = Some d \<Longrightarrow> \<not> d < date_at w t \<Longrightarrow>
     log_monitor_midnight w base_path ngs_path self t = Some (Inr (self, base_path, ngs_path), [], t)"
  by (simp add: log_monitor_midnight_def)

lemma log_monitor_midnight_new_day:
  assumes "priv_log_date self = Some d" and "d < date_at w t" and "priv_f self = Some h"
    and "priv_log_type self = Some ty" and "priv_log_path self = Some lp"
    and "\<forall>i<k. fs_at w (t + i) (path_join (dirname (name h)) (log_file_name ty (date_at w t))) = None"
    and "fs_at w (t + k) (path_join (dirname (name h)) (log_file_name ty (date_at w t))) = Some fl"
  shows "log_monitor_midnight w base_path ngs_path self t =
           Some (Inr (opened (self\<lparr>priv_log_date := Some (date_at w t)\<rparr>)
                        (path_join (dirname (name h)) (log_file_name ty (date_at w t))) fl,
                      base_path_of lp ty (date_at w t), ngs_path_of lp ty (date_at w t)),
                 (if k = 0 then [] else [FileNotFoundLogged ty]), t + k)"
proof -
  have "priv_log_type (self\<lparr>priv_log_date := Some (date_at w t)\<rparr>) = Some ty"
    using assms(4) by simp
  from open_log_file_wait [OF this assms(6,7)]
  have "open_log_file w (path_join (dirname (name h)) (log_file_name ty (date_at w t)))
          (self\<lparr>priv_log_date := Some (date_at w t)\<rparr>) t =
        Some (Inr (opened (self\<lparr>priv_log_date := Some (date_at w t)\<rparr>)
                     (path_join (dirname (name h)) (log_file_name ty (date_at w t))) fl),
              (if k = 0 then [] else [FileNotFoundLogged ty]), t + k)" .
  with assms(1-5) show ?thesis
    by (simp add: log_monitor_midnight_def opened_def)
qed

section \<open>The monitor\<close>

text \<open>
  C3, as the claim states it, fails: with the handle on the \<open>log_ngs\<close> file of the old
  day and the date advanced, the pass reopens the new day's file in \<open>log_ngs\<close>, not
  the one in \<open>log\<close>.
\<close>

theorem log_monitor_midnight_counterexample:
  "log_monitor_tick ngs_midnight_world (monitored ngs_old, base_old, ngs_old) 0 =
     Some (Inr ((monitored ngs_old)\<lparr>priv_log_date := Some ''20240102'',
                                     priv_f := Some \<lparr>name = ngs_new, pos = 4\<rparr>\<rparr>,
                base_new, ngs_new), [], 15)
   \<and> ngs_new \<noteq> base_new"
proof -
  have first: "log_monitor_variant ngs_midnight_world base_old ngs_old (monitored ngs_old) 0
                 = Some (Inr (monitored ngs_old), [], 0)"
    by (rule log_monitor_variant_skip) (simp add: ngs_midnight_world_files)
  have "\<forall>i<0. fs_at ngs_midnight_world (0 + i)
            (path_join (dirname (name \<lparr>name = ngs_old, pos = 0\<rparr>))
               (log_file_name ''ChatLog'' (date_at ngs_midnight_world 0))) = None"
    by simp
  moreover have "fs_at ngs_midnight_world (0 + 0)
            (path_join (dirname (name \<lparr>name = ngs_old, pos = 0\<rparr>))
               (log_file_name ''ChatLog'' (date_at ngs_midnight_world 0))) = Some (log_of 9)"
    by (simp add: ngs_midnight_world_files dirname_ngs_old)
  moreover have "(''20240101''::string) < date_at ngs_midnight_world 0"
    by (simp add: ngs_midnight_world_files)
  ultimately have second:
    "log_monitor_midnight ngs_midnight_world base_old ngs_old (monitored ngs_old) 0 =
       Some (Inr (opened ((monitored ngs_old)\<lparr>priv_log_date := Some ''20240102''\<rparr>) ngs_new (log_of 9),
                  base_new, ngs_new), [], 0)"
    using log_monitor_midnight_new_day [of "monitored ngs_old" "''20240101''" ngs_midnight_world 0
        "\<lparr>name = ngs_old, pos = 0\<rparr>" "''ChatLog''" root 0 "log_of 9" base_old ngs_old]
    by (simp add: monitored_fields ngs_midnight_world_files dirname_ngs_old base_new_def ngs_new_def)
  have "log_monitor_tick ngs_midnight_world (monitored ngs_old, base_old, ngs_old) 0 =
     Some (Inr (opened ((monitored ngs_old)\<lparr>priv_log_date := Some ''20240102''\<rparr>) ngs_new (log_of 9),
                base_new, ngs_new), [], 15)"
    by (simp add: log_monitor_tick_def first second)
  then show ?thesis
    using paths_distinct by (simp add: opened_def open_pos_def monitored_def log_of_def)
qed

text \<open>
  C3, amended. On a pass of the monitor loop where, after the variant check, the UTC
  date is later than the stored date, the monitor stores the new date and reopens the
  file named type, new date, \<open>_00.txt\<close> in the directory of the file that is open at
  that moment (whichever variant it belongs to), waiting one second per failed attempt
  until it exists; then it recomputes both candidate paths for the new date and sleeps
  15 seconds.
\<close>

theorem log_monitor_tick_midnight:
  assumes "log_monitor_variant w base_path ngs_path self t = Some (Inr self1, evs1, t1)"
    and "priv_log_date self1 = Some d" and "d < date_at w t1" and "priv_f self1 = Some h"
    and "priv_log_type self1 = Some ty" and "priv_log_path self1 = Some lp"
    and "\<forall>i<k. fs_at w (t1 + i) (path_join (dirname (name h)) (log_file_name ty (date_at w t1))) = None"
    and "fs_at w (t1 + k) (path_join (dirname (name h)) (log_file_name ty (date_at w t1))) = Some fl"
  shows "log_monitor_tick w (self, base_path, ngs_path) t =
           Some (Inr (opened (self1\<lparr>priv_log_date := Some (date_at w t1)\<rparr>)
                        (path_join (dirname (name h)) (log_file_name ty (date_at w t1))) fl,
                      base_path_of lp ty (date_at w t1), ngs_path_of lp ty (date_at w t1)),
                 evs1 @ (if k = 0 then [] else [FileNotFoundLogged ty]), t1 + k + 15)"
  using assms(1) log_monitor_midnight_new_day [OF assms(2-8), of base_path ngs_path]
  by (simp add: log_monitor_tick_def)

theorem log_monitor_tick_midnight_witness:
  "log_monitor_tick ngs_midnight_world (monitored ngs_old, base_old, ngs_old) 0 =
     Some (Inr (opened ((monitored ngs_old)\<lparr>priv_log_date := Some ''20240102''\<rparr>) ngs_new (log_of 9),
                base_new, ngs_new),
           [], 15)"
proof -
  have first: "log_monitor_variant ngs_midnight_world base_old ngs_old (monitored ngs_old) 0
                 = Some (Inr (monitored ngs_old), [], 0)"
    by (rule log_monitor_variant_skip) (simp add: ngs_midnight_world_files)
  have day: "priv_log_date (monitored ngs_old) = Some ''20240101''"
    and handle: "priv_f (monitored ngs_old) = Some \<lparr>name = ngs_old, pos = 0\<rparr>"
    and ty: "priv_log_type (monitored ngs_old) = Some ''ChatLog''"
    and lp: "priv_log_path (monitored ngs_old) = Some root"
    by (simp_all add: monitored_fields)
  have later: "(''20240101''::string) < date_at ngs_midnight_world 0"
    by (simp add: ngs_midnight_world_files)
  have absent: "\<forall>i<0. fs_at ngs_midnight_world (0 + i)
            (path_join (dirname (name \<lparr>name = ngs_old, pos = 0\<rparr>))
               (log_file_name ''ChatLog'' (date_at ngs_midnight_world 0))) = None"
    by simp
  have present: "fs_at ngs_midnight_world (0 + 0)
            (path_join (dirname (name \<lparr>name = ngs_old, pos = 0\<rparr>))
               (log_file_name ''ChatLog'' (date_at ngs_midnight_world 0))) = Some (log_of 9)"
    by (simp add: ngs_midnight_world_files dirname_ngs_old)
  from log_monitor_tick_midnight [OF first day later handle ty lp absent present]
  show ?thesis
    by (simp add: ngs_midnight_world_files dirname_ngs_old base_new_def ngs_new_def)
qed

text \<open>
  C4, as the claim states it, fails: when only the \<open>log_ngs\<close> candidate exists and the
  handle is on the other path, the pass leaves the handle where it is.
\<close>

theorem log_monitor_variant_counterexample:
  "fs_at ngs_only_world 0 base_old = None
   \<and> fs_at ngs_only_world 0 ngs_old = Some (log_of 9)
   \<and> priv_f (monitored base_old) = Some \<lparr>name = base_old, pos = 0\<rparr>
   \<and> ngs_old \<noteq> base_old
   \<and> log_monitor_tick ngs_only_world (monitored base_old, base_old, ngs_old) 0 =
       Some (Inr (monitored base_old, base_old, ngs_old), [], 15)"
proof -
  have first: "log_monitor_variant ngs_only_world base_old ngs_old (monitored base_old) 0
                 = Some (Inr (monitored base_old), [], 0)"
    by (rule log_monitor_variant_skip) (simp add: ngs_only_world_files)
  have second: "log_monitor_midnight ngs_only_world base_old ngs_old (monitored base_old) 0
                 = Some (Inr (monitored base_old, base_old, ngs_old), [], 0)"
    by (rule log_monitor_midnight_same_day [of _ "''20240101''"])
       (simp_all add: monitored_fields ngs_only_world_files)
  have "log_monitor_tick ngs_only_world (monitored base_old, base_old, ngs_old) 0 =
       Some (Inr (monitored base_old, base_old, ngs_old), [], 15)"
    by (simp add: log_monitor_tick_def first second)
  then show ?thesis
    using paths_distinct(1) by (simp add: ngs_only_world_files monitored_fields)
qed

text \<open>
  C4, amended. The variant check that opens every pass of the monitor loop: when both
  candidate files exist, the one with the newer modification time wins (the \<open>log\<close>
  one unless the \<open>log_ngs\<close> one is strictly newer) and the handle is reopened on the
  winner if and only if the winner differs from the open file's name; when one of the
  candidates does not exist, nothing is arbitrated and the object is left as it is.
\<close>

theorem log_monitor_variant_arbitration:
  assumes "priv_f self = Some h"
  shows "(fs_at w t base_path = Some fb \<and> fs_at w t ngs_path = Some fn \<longrightarrow>
            log_monitor_variant w base_path ngs_path self t =
              Some (Inr (if mtime fb < mtime fn
                         then (if ngs_path \<noteq> name h then opened self ngs_path fn else self)
                         else (if base_path \<noteq> name h then opened self base_path fb else self)),
                    [], t))
         \<and> (fs_at w t base_path = None \<or> fs_at w t ngs_path = None \<longrightarrow>
            log_monitor_variant w base_path ngs_path self t = Some (Inr self, [], t))"
  using log_monitor_variant_both [OF _ _ assms] log_monitor_variant_skip by blast

theorem log_monitor_variant_arbitration_witness:
  "log_monitor_variant (both_world 5 9) base_old ngs_old (monitored base_old) 0 =
     Some (Inr (opened (monitored base_old) ngs_old (log_of 9)), [], 0)
   \<and> log_monitor_variant ngs_only_world base_old ngs_old (monitored base_old) 0 =
     Some (Inr (monitored base_old), [], 0)"
proof -
  have handle: "priv_f (monitored base_old) = Some \<lparr>name = base_old, pos = 0\<rparr>"
    by (simp add: monitored_fields)
  have both: "fs_at (both_world 5 9) 0 base_old = Some (log_of 5)
                \<and> fs_at (both_world 5 9) 0 ngs_old = Some (log_of 9)"
    by (simp add: both_world_files)
  have one: "fs_at ngs_only_world 0 base_old = None \<or> fs_at ngs_only_world 0 ngs_old = None"
    by (simp add: ngs_only_world_files)
  from log_monitor_variant_arbitration [OF handle, of "both_world 5 9" 0 base_old "log_of 5"
      ngs_old "log_of 9"] both
  have a: "log_monitor_variant (both_world 5 9) base_old ngs_old (monitored base_old) 0 =
     Some (Inr (opened (monitored base_old) ngs_old (log_of 9)), [], 0)"
    using paths_distinct(1) by (simp add: log_of_def)
  from log_monitor_variant_arbitration [OF handle, of ngs_only_world 0 base_old _ ngs_old] one
  have b: "log_monitor_variant ngs_only_world base_old ngs_old (monitored base_old) 0 =
     Some (Inr (monitored base_old), [], 0)"
    by blast
  from a b show ?thesis by blast
qed

text \<open>
  C10. When both candidate files exist with equal modification times, the variant check
  selects \<open>base_path\<close>: the handle is reopened on it unless it is there already, so
  after the check the open file is the \<open>log\<close> one.
\<close>

theorem log_monitor_variant_tie:
  assumes "fs_at w t base_path = Some fb" and "fs_at w t ngs_path = Some fn"
    and "mtime fb = mtime fn" and "priv_f self = Some h"
  shows "log_monitor_variant w base_path ngs_path self t =
           Some (Inr (if name h = base_path then self else opened self base_path fb), [], t)
         \<and> map_option name (priv_f (if name h = base_path then self else opened self base_path fb))
             = Some base_path"
  using assms log_monitor_variant_both [OF assms(1,2,4)]
  by (auto simp: opened_def)

theorem log_monitor_variant_tie_witness:
  "log_monitor_variant (both_world 5 5) base_old ngs_old (monitored ngs_old) 0 =
     Some (Inr (opened (monitored ngs_old) base_old (log_of 5)), [], 0)
   \<and> map_option name (priv_f (opened (monitored ngs_old) base_old (log_of 5))) = Some base_old"
proof -
  have base: "fs_at (both_world 5 5) 0 base_old = Some (log_of 5)"
    and ngs: "fs_at (both_world 5 5) 0 ngs_old = Some (log_of 5)"
    by (simp_all add: both_world_files)
  have tie: "mtime (log_of 5) = mtime (log_of 5)"
    by simp
  have handle: "priv_f (monitored ngs_old) = Some \<lparr>name = ngs_old, pos = 0\<rparr>"
    by (simp add: monitored_fields)
  from log_monitor_variant_tie [OF base ngs tie handle] paths_distinct(1)
  show ?thesis by simp
qed

end
